theory Spec2Isabelle
  imports Complex_Main "HOL-Library.Sublist"
begin

section \<open>Python values\<close>

text \<open>
  The retrieval code of \<^verbatim>\<open>search_bot.py\<close> is embedded as HOL functions. A Python
  exception is a value: every function that can raise returns \<open>py_error + 'a\<close>, with
  \<open>Inl\<close> for the exception. Strings are \<open>char list\<close>; a text outside ASCII stands for
  its UTF-8 bytes, in which an ASCII keyword occurs exactly where it occurs in the text.
  Floats are modelled by the reals they denote (the distances of a search are finite,
  so their comparison is the order of the reals).
\<close>

datatype py_error = KeyError | IndexError | AttributeError | OSError

text \<open>
  \<^verbatim>\<open>xs[i]\<close> on a list or an array row. A position from \<open>0\<close> up to the length reads
  from the front, one from \<open>-1\<close> down to minus the length reads from the back, and
  any other raises.
\<close>

definition py_get :: "'a list \<Rightarrow> int \<Rightarrow> py_error + 'a" where
  "py_get xs i =
     (if 0 \<le> i \<and> i < int (length xs) then Inr (xs ! nat i)
      else if i < 0 \<and> - int (length xs) \<le> i then Inr (xs ! nat (int (length xs) + i))
      else Inl IndexError)"

text \<open>\<^verbatim>\<open>d[key]\<close> on a dictionary of strings, kept as an association list.\<close>

type_synonym pydict = "(string \<times> string) list"

definition getitem :: "pydict \<Rightarrow> string \<Rightarrow> py_error + string" where
  "getitem d k = (case map_of d k of None \<Rightarrow> Inl KeyError | Some v \<Rightarrow> Inr v)"

text \<open>
  \<^verbatim>\<open>str.lower()\<close>: the ASCII capitals go to their small letters, every other byte
  stays. (The two code points whose lowercase form contains an ASCII letter, U+0130 and
  U+212A, yield \<open>i\<close> followed by a combining mark and \<open>k\<close>; no keyword below has a
  \<open>k\<close> or ends in \<open>i\<close>, so they match nothing.)
\<close>

definition lower_char :: "char \<Rightarrow> char" where
  "lower_char c =
     (case map_of (zip ''ABCDEFGHIJKLMNOPQRSTUVWXYZ'' ''abcdefghijklmnopqrstuvwxyz'') c of
        None \<Rightarrow> c
      | Some d \<Rightarrow> d)"

definition lower :: "string \<Rightarrow> string" where
  "lower q = map lower_char q"

text \<open>\<^verbatim>\<open>w in q\<close> on strings: \<open>w\<close> starts at some position of \<open>q\<close>.\<close>

fun contains :: "string \<Rightarrow> string \<Rightarrow> bool" where
  "contains [] w = (w = [])"
| "contains (c # cs) w = (prefix w (c # cs) \<or> contains cs w)"


section \<open>Constants and data of the bot\<close>

definition TOP_K_RETRIEVAL :: nat where
  "TOP_K_RETRIEVAL = 7"

definition BOOST_VALUE :: real where
  "BOOST_VALUE = 2 / 10"

definition NER_BOOST_PER_MATCH :: real where
  "NER_BOOST_PER_MATCH = 5 / 100"

type_synonym vec = "real list"

text \<open>
  A FAISS index is an object of an external library: its \<open>search\<close> takes the query
  vector and \<open>k\<close> and returns the rows \<^verbatim>\<open>distances[0]\<close> and \<^verbatim>\<open>indices[0]\<close>.
\<close>

record faiss_index =
  ntotal :: nat
  search :: "vec \<Rightarrow> nat \<Rightarrow> real list \<times> int list"

text \<open>The pickled metadata of a corpus, as \<^verbatim>\<open>build_indexes.py\<close> writes it.\<close>

record corpus_metadata =
  ids :: "string list"
  documents :: "pydict list"

text \<open>
  \<^verbatim>\<open>Document(page_content=..., metadata={"title": ..., "score": ...})\<close>
\<close>

record document =
  page_content :: string
  metadata_title :: string
  metadata_score :: real

type_synonym llm_t = "string \<Rightarrow> string list"
type_synonym chain_t = "document list \<Rightarrow> string \<Rightarrow> string list"

record bot =
  model :: "string \<Rightarrow> vec"
  nlp :: "(string \<Rightarrow> string list) option"
  indexes :: "string \<rightharpoonup> faiss_index"
  metadata :: "string \<rightharpoonup> corpus_metadata"
  type_map :: "string \<rightharpoonup> string"
  ner_entities :: "string \<rightharpoonup> string set"
  llm :: "llm_t option"
  rag_chain :: "chain_t option"


section \<open>Construction\<close>

text \<open>
  What \<^verbatim>\<open>CyberpunkBot.__init__\<close> reads from outside: each loader either raises or
  returns its object. The entity file maps a title to the texts of its entities.
\<close>

record environment =
  sentence_transformer :: "py_error + (string \<Rightarrow> vec)"
  spacy_load :: "py_error + (string \<Rightarrow> string list)"
  read_index :: "string \<Rightarrow> py_error + faiss_index"
  pickle_load :: "string \<Rightarrow> py_error + corpus_metadata"
  type_map_json :: "py_error + (string \<rightharpoonup> string)"
  ner_entities_json :: "py_error + (string \<rightharpoonup> string list)"
  chat_ollama :: "py_error + llm_t"
  create_stuff_documents_chain :: "llm_t \<Rightarrow> py_error + chain_t"

text \<open>
  One round of the loop over the corpus names: the index is stored as soon as it is
  read, the metadata after it, and any exception ends the round.
\<close>

definition load_corpus ::
  "environment \<Rightarrow> string \<Rightarrow>
   (string \<rightharpoonup> faiss_index) \<times> (string \<rightharpoonup> corpus_metadata) \<Rightarrow>
   (string \<rightharpoonup> faiss_index) \<times> (string \<rightharpoonup> corpus_metadata)" where
  "load_corpus env name s =
     (case s of (ix, md) \<Rightarrow>
        (case read_index env name of
           Inl e \<Rightarrow> (ix, md)
         | Inr i \<Rightarrow>
             (case pickle_load env name of
                Inl e \<Rightarrow> (ix(name \<mapsto> i), md)
              | Inr m \<Rightarrow> (ix(name \<mapsto> i), md(name \<mapsto> m)))))"

definition init_llm :: "environment \<Rightarrow> llm_t option" where
  "init_llm env = (case chat_ollama env of Inl e \<Rightarrow> None | Inr l \<Rightarrow> Some l)"

definition init_chain :: "environment \<Rightarrow> llm_t option \<Rightarrow> py_error + chain_t option" where
  "init_chain env l =
     (case l of
        None \<Rightarrow> Inr None
      | Some f \<Rightarrow>
          (case create_stuff_documents_chain env f of
             Inl e \<Rightarrow> Inl e
           | Inr c \<Rightarrow> Inr (Some c)))"

definition CyberpunkBot_init :: "environment \<Rightarrow> py_error + bot" where
  "CyberpunkBot_init env =
     (case sentence_transformer env of
        Inl e \<Rightarrow> Inl e
      | Inr m \<Rightarrow>
          (let s = fold (load_corpus env) [''lore'', ''timeline'', ''slang'']
                     (Map.empty, Map.empty);
               l = init_llm env
           in case init_chain env l of
                Inl e \<Rightarrow> Inl e
              | Inr c \<Rightarrow>
                  Inr \<lparr> model = m,
                        nlp = (case spacy_load env of Inl e \<Rightarrow> None | Inr f \<Rightarrow> Some f),
                        indexes = fst s,
                        metadata = snd s,
                        type_map = (case type_map_json env of
                                      Inl e \<Rightarrow> Map.empty
                                    | Inr t \<Rightarrow> t),
                        ner_entities = (case ner_entities_json env of
                                          Inl e \<Rightarrow> Map.empty
                                        | Inr raw \<Rightarrow>
                                            (\<lambda>k. map_option (\<lambda>v. set (map lower v)) (raw k))),
                        llm = l,
                        rag_chain = c \<rparr>))"

text \<open>
  \<^verbatim>\<open>initialize_bot\<close>: no bot when construction raises, when the LLM or the chain is
  missing, or when the lore index or the lore metadata is missing.
\<close>

definition initialize_bot :: "environment \<Rightarrow> bot option" where
  "initialize_bot env =
     (case CyberpunkBot_init env of
        Inl e \<Rightarrow> None
      | Inr b \<Rightarrow>
          if llm b = None \<or> rag_chain b = None then None
          else if indexes b ''lore'' = None \<or> metadata b ''lore'' = None then None
          else Some b)"


section \<open>Query-time methods\<close>

definition classify_intent :: "string \<Rightarrow> string" where
  "classify_intent q0 =
     (let q = lower q0 in
      if list_ex (\<lambda>w. contains q w) [''when'', ''year'', ''timeline''] then ''timeline''
      else if list_ex (\<lambda>w. contains q w) [''who'', ''person''] then ''person''
      else if list_ex (\<lambda>w. contains q w) [''where'', ''location''] then ''location''
      else ''general'')"

definition extract_query_entities :: "bot \<Rightarrow> string \<Rightarrow> string set" where
  "extract_query_entities b q =
     (case nlp b of
        None \<Rightarrow> {}
      | Some f \<Rightarrow> set (map lower (f q)))"

text \<open>
  The body of \<^verbatim>\<open>for i in range(TOP_K_RETRIEVAL)\<close> in \<^verbatim>\<open>search_and_rank\<close>, over
  the slots still to visit, with the list \<open>results\<close> built so far. The reads happen in
  the order of the source, and each of them can raise.
\<close>

fun search_and_rank_loop ::
  "bot \<Rightarrow> string \<Rightarrow> real list \<Rightarrow> int list \<Rightarrow> nat list \<Rightarrow> document list \<Rightarrow>
   py_error + document list" where
  "search_and_rank_loop b index_name distances indices [] results = Inr results"
| "search_and_rank_loop b index_name distances indices (i # slots) results =
     (case py_get indices (int i) of
        Inl e \<Rightarrow> Inl e
      | Inr idx \<Rightarrow>
          if idx = - 1 then search_and_rank_loop b index_name distances indices slots results
          else
            (case metadata b index_name of
               None \<Rightarrow> Inl KeyError
             | Some md \<Rightarrow>
                 (case py_get (documents md) idx of
                    Inl e \<Rightarrow> Inl e
                  | Inr meta \<Rightarrow>
                      (case py_get distances (int i) of
                         Inl e \<Rightarrow> Inl e
                       | Inr sc \<Rightarrow>
                           (case getitem meta ''summary'' of
                              Inl e \<Rightarrow> Inl e
                            | Inr s \<Rightarrow>
                                (case getitem meta ''title'' of
                                   Inl e \<Rightarrow> Inl e
                                 | Inr t \<Rightarrow>
                                     search_and_rank_loop b index_name distances indices slots
                                       (results @
                                        [\<lparr> page_content = s,
                                           metadata_title = t,
                                           metadata_score = sc \<rparr>])))))))"

text \<open>
  Lines 180 to 195 of \<^verbatim>\<open>search_and_rank\<close>: the query is encoded, the index is
  searched for \<open>TOP_K_RETRIEVAL\<close> neighbours and the loop builds \<open>results\<close>.
\<close>

definition vector_search ::
  "bot \<Rightarrow> faiss_index \<Rightarrow> string \<Rightarrow> string \<Rightarrow> py_error + document list" where
  "vector_search b ix query index_name =
     (case search ix (model b query) TOP_K_RETRIEVAL of
        (distances, indices) \<Rightarrow>
          search_and_rank_loop b index_name distances indices [0..<TOP_K_RETRIEVAL] [])"

definition search_and_rank :: "bot \<Rightarrow> string \<Rightarrow> string \<Rightarrow> py_error + document list" where
  "search_and_rank b query index_name =
     (case indexes b index_name of
        None \<Rightarrow> Inr []
      | Some ix \<Rightarrow>
          (case vector_search b ix query index_name of
             Inl e \<Rightarrow> Inl e
           | Inr results \<Rightarrow> Inr (take 4 (sort_key metadata_score results))))"

datatype response = Text string | Stream "string list"

definition ask_rag :: "bot \<Rightarrow> string \<Rightarrow> py_error + response \<times> string list" where
  "ask_rag b query =
     (case search_and_rank b query ''lore'' of
        Inl e \<Rightarrow> Inl e
      | Inr docs \<Rightarrow>
          if docs = [] then Inr (Text ''Got nothing on that, choomba.'', [])
          else
            (case rag_chain b of
               None \<Rightarrow> Inl AttributeError
             | Some chain \<Rightarrow> Inr (Stream (chain docs query), map metadata_title docs)))"



section \<open>Well-formed snapshots\<close>

text \<open>
  The document that the loop builds for a slot with distance \<open>sc\<close> and position
  \<open>idx\<close>: the summary and the title of the stored record and the distance as score.
\<close>

definition slot_document :: "corpus_metadata \<Rightarrow> real \<Rightarrow> int \<Rightarrow> document" where
  "slot_document md sc idx =
     \<lparr> page_content = the (map_of (documents md ! nat idx) ''summary''),
       metadata_title = the (map_of (documents md ! nat idx) ''title''),
       metadata_score = sc \<rparr>"

text \<open>
  A corpus as \<^verbatim>\<open>build_indexes.py\<close> writes it: one stored record per vector, each
  with a title and a summary.
\<close>

definition corpus_ok :: "faiss_index \<Rightarrow> corpus_metadata \<Rightarrow> bool" where
  "corpus_ok ix md \<longleftrightarrow>
     length (documents md) = ntotal ix
     \<and> list_all (\<lambda>d. map_of d ''title'' \<noteq> None \<and> map_of d ''summary'' \<noteq> None) (documents md)"

text \<open>A slot that the loop can process: a sentinel, or a position with a complete record.\<close>

definition slot_ok :: "corpus_metadata \<Rightarrow> real list \<Rightarrow> int list \<Rightarrow> nat \<Rightarrow> bool" where
  "slot_ok md D I i \<longleftrightarrow>
     i < length I \<and> i < length D
     \<and> (I ! i = - 1
         \<or> (0 \<le> I ! i \<and> I ! i < int (length (documents md))
             \<and> map_of (documents md ! nat (I ! i)) ''title'' \<noteq> None
             \<and> map_of (documents md ! nat (I ! i)) ''summary'' \<noteq> None))"

text \<open>
  What the FAISS library returns for a search of \<open>k\<close> neighbours in an index of \<open>n\<close>
  vectors: \<open>k\<close> slots, of which the first \<open>min n k\<close> hold distinct positions of the
  index and the others the position \<open>-1\<close>.
\<close>

definition faiss_result_ok :: "nat \<Rightarrow> nat \<Rightarrow> real list \<times> int list \<Rightarrow> bool" where
  "faiss_result_ok n k r \<longleftrightarrow>
     (case r of (distances, indices) \<Rightarrow>
        length distances = k \<and> length indices = k
        \<and> distinct (take n indices)
        \<and> list_all (\<lambda>j. 0 \<le> j \<and> j < int n) (take n indices)
        \<and> list_all (\<lambda>j. j = - 1) (drop n indices))"


section \<open>A sample snapshot\<close>

definition FLT_MAX :: real where
  "FLT_MAX = 340282346638528859811704183484516925440"

definition sample_lore_index :: faiss_index where
  "sample_lore_index =
     \<lparr> ntotal = 2,
       search = (\<lambda>q k. ([1 / 2, 7 / 10, FLT_MAX, FLT_MAX, FLT_MAX, FLT_MAX, FLT_MAX],
                        [0, 1, - 1, - 1, - 1, - 1, - 1])) \<rparr>"

definition sample_lore_metadata :: corpus_metadata where
  "sample_lore_metadata =
     \<lparr> ids = [''Johnny Silverhand'', ''Arasaka''],
       documents =
         [[(''title'', ''Johnny Silverhand''), (''summary'', ''title: Johnny Silverhand. role: rockerboy.'')],
          [(''title'', ''Arasaka''), (''summary'', ''title: Arasaka. type: corporation.'')]] \<rparr>"

definition sample_timeline_index :: faiss_index where
  "sample_timeline_index =
     \<lparr> ntotal = 1,
       search = (\<lambda>q k. ([3 / 10, FLT_MAX, FLT_MAX, FLT_MAX, FLT_MAX, FLT_MAX, FLT_MAX],
                        [0, - 1, - 1, - 1, - 1, - 1, - 1])) \<rparr>"

definition sample_timeline_metadata :: corpus_metadata where
  "sample_timeline_metadata =
     \<lparr> ids = [''2021_0''],
       documents =
         [[(''title'', ''Timeline Event 2021''),
           (''summary'', ''Timeline Event: the fourth corporate war begins. The year this occurred was: 2021.'')]] \<rparr>"

definition sample_chain :: chain_t where
  "sample_chain = (\<lambda>docs query. map page_content docs)"

definition sample_env :: environment where
  "sample_env =
     \<lparr> sentence_transformer = Inr (\<lambda>q. [0, 1]),
       spacy_load = Inr (\<lambda>q. [''Johnny Silverhand'']),
       read_index = (\<lambda>name. if name = ''lore'' then Inr sample_lore_index
                            else if name = ''timeline'' then Inr sample_timeline_index
                            else Inl OSError),
       pickle_load = (\<lambda>name. if name = ''lore'' then Inr sample_lore_metadata
                             else if name = ''timeline'' then Inr sample_timeline_metadata
                             else Inl OSError),
       type_map_json = Inr [''Johnny Silverhand'' \<mapsto> ''character'', ''Arasaka'' \<mapsto> ''organization''],
       ner_entities_json = Inr [''Johnny Silverhand'' \<mapsto> [''Johnny Silverhand'', ''Night City'']],
       chat_ollama = Inr (\<lambda>p. [p]),
       create_stuff_documents_chain = (\<lambda>l. Inr sample_chain) \<rparr>"

definition sample_bot :: bot where
  "sample_bot =
     \<lparr> model = (\<lambda>q. [0, 1]),
       nlp = Some (\<lambda>q. [''Johnny Silverhand'']),
       indexes = [''lore'' \<mapsto> sample_lore_index, ''timeline'' \<mapsto> sample_timeline_index],
       metadata = [''lore'' \<mapsto> sample_lore_metadata, ''timeline'' \<mapsto> sample_timeline_metadata],
       type_map = [''Johnny Silverhand'' \<mapsto> ''character'', ''Arasaka'' \<mapsto> ''organization''],
       ner_entities = [''Johnny Silverhand'' \<mapsto> {''johnny silverhand'', ''night city''}],
       llm = Some (\<lambda>p. [p]),
       rag_chain = Some sample_chain \<rparr>"

text \<open>
  A snapshot whose timeline metadata cannot be read and whose lore metadata holds one
  record for an index of two vectors.
\<close>

definition short_lore_metadata :: corpus_metadata where
  "short_lore_metadata =
     \<lparr> ids = [''Arasaka''],
       documents = [[(''title'', ''Arasaka''), (''summary'', ''title: Arasaka. type: corporation.'')]] \<rparr>"

definition broken_env :: environment where
  "broken_env =
     sample_env \<lparr> pickle_load := (\<lambda>name. if name = ''lore'' then Inr short_lore_metadata
                                         else Inl OSError) \<rparr>"

definition broken_bot :: bot where
  "broken_bot =
     sample_bot \<lparr> metadata := [''lore'' \<mapsto> short_lore_metadata] \<rparr>"

text \<open>A snapshot without the spaCy model, one without the lore corpus, one with an empty lore index.\<close>

definition no_spacy_env :: environment where
  "no_spacy_env = sample_env \<lparr> spacy_load := Inl OSError \<rparr>"

definition no_lore_bot :: bot where
  "no_lore_bot =
     sample_bot \<lparr> indexes := [''timeline'' \<mapsto> sample_timeline_index],
                  metadata := [''timeline'' \<mapsto> sample_timeline_metadata] \<rparr>"

definition empty_index :: faiss_index where
  "empty_index =
     \<lparr> ntotal = 0,
       search = (\<lambda>q k. ([FLT_MAX, FLT_MAX, FLT_MAX, FLT_MAX, FLT_MAX, FLT_MAX, FLT_MAX],
                        [- 1, - 1, - 1, - 1, - 1, - 1, - 1])) \<rparr>"

definition empty_lore_bot :: bot where
  "empty_lore_bot =
     sample_bot \<lparr> indexes := [''lore'' \<mapsto> empty_index],
                  metadata := Map.empty \<rparr>"


section \<open>Substring search and lowercasing\<close>

lemma contains_sublist: "contains q w \<longleftrightarrow> sublist w q"
  by (induction q) (simp_all add: sublist_Cons_right)

lemma sublist_lower: "sublist w q \<Longrightarrow> sublist (lower w) (lower q)"
  unfolding lower_def by (rule map_mono_sublist)

lemma lower_keyword:
  "w \<in> {''when'', ''year'', ''timeline''} \<Longrightarrow> lower w = w"
  by (auto simp: lower_def lower_char_def)

lemma classify_intent_sublist:
  "classify_intent q =
     (if sublist ''when'' (lower q) \<or> sublist ''year'' (lower q) \<or> sublist ''timeline'' (lower q)
        then ''timeline''
      else if sublist ''who'' (lower q) \<or> sublist ''person'' (lower q) then ''person''
      else if sublist ''where'' (lower q) \<or> sublist ''location'' (lower q) then ''location''
      else ''general'')"
  by (simp add: classify_intent_def contains_sublist)

lemma classify_intent_empty: "classify_intent [] = ''general''"
  by (simp add: classify_intent_def lower_def)

lemma classify_intent_range:
  "classify_intent q \<in> {''timeline'', ''person'', ''location'', ''general''}"
  unfolding classify_intent_def Let_def
  by (simp only: if_distrib [of "\<lambda>x. x \<in> _"] insertI1 insertI2 if_True if_cancel)


section \<open>The intent classifier\<close>

text \<open>
  Claim C3. \<open>classify_intent\<close> lowercases the query and answers by the first keyword
  group that has a keyword occurring in it, in the order timeline, person, location,
  and \<open>general\<close> when none occurs. It is a total function with these four values (no
  operation of it can raise on a string), and the empty query is \<open>general\<close>.
\<close>

theorem classify_intent_precedence:
  "classify_intent q =
     (if sublist ''when'' (lower q) \<or> sublist ''year'' (lower q) \<or> sublist ''timeline'' (lower q)
        then ''timeline''
      else if sublist ''who'' (lower q) \<or> sublist ''person'' (lower q) then ''person''
      else if sublist ''where'' (lower q) \<or> sublist ''location'' (lower q) then ''location''
      else ''general'')
   \<and> classify_intent q \<in> {''timeline'', ''person'', ''location'', ''general''}
   \<and> classify_intent '''' = ''general''"
  using classify_intent_sublist [of q] classify_intent_range [of q] classify_intent_empty
  by blast

theorem classify_intent_precedence_witness:
  "classify_intent ''Who lived in the YEAR 2077?'' = ''timeline''"
proof -
  have "contains (lower ''Who lived in the YEAR 2077?'') ''year''"
    by (simp add: lower_def lower_char_def)
  then have "sublist ''year'' (lower ''Who lived in the YEAR 2077?'')"
    by (simp only: contains_sublist)
  then show ?thesis
    using classify_intent_precedence [of "''Who lived in the YEAR 2077?''"] by presburger
qed


section \<open>The retrieval loop and the loader\<close>

lemma slots_7: "[0..<TOP_K_RETRIEVAL] = [0, 1, 2, 3, 4, 5, 6]"
  unfolding TOP_K_RETRIEVAL_def by (simp add: upt_rec)

lemma py_get_nat:
  "py_get xs (int i) = (if i < length xs then Inr (xs ! i) else Inl IndexError)"
  by (simp add: py_get_def)

lemma py_get_in_range:
  "0 \<le> j \<Longrightarrow> j < int (length xs) \<Longrightarrow> py_get xs j = Inr (xs ! nat j)"
  by (simp add: py_get_def)

lemma loop_length:
  "search_and_rank_loop b name D I slots acc = Inr r
   \<Longrightarrow> length r \<le> length acc + length slots"
proof (induction slots arbitrary: acc)
  case Nil
  then show ?case by simp
next
  case (Cons i slots)
  show ?case
  proof (cases "py_get I (int i)")
    case (Inl e)
    with Cons.prems show ?thesis by simp
  next
    case (Inr idx)
    show ?thesis
    proof (cases "idx = - 1")
      case True
      with Cons.prems Inr have "search_and_rank_loop b name D I slots acc = Inr r"
        by simp
      from Cons.IH [OF this] show ?thesis by simp
    next
      case False
      with Cons.prems Inr obtain d where
        "search_and_rank_loop b name D I slots (acc @ [d]) = Inr r"
        by (auto split: option.splits sum.splits)
      from Cons.IH [OF this] show ?thesis by simp
    qed
  qed
qed

lemma loop_cong:
  "metadata b1 name = metadata b2 name
   \<Longrightarrow> search_and_rank_loop b1 name D I slots acc = search_and_rank_loop b2 name D I slots acc"
  by (induction slots arbitrary: acc) (auto split: sum.splits option.splits)

lemma loop_ok:
  "metadata b name = Some md \<Longrightarrow> \<forall>i \<in> set slots. slot_ok md D I i
   \<Longrightarrow> search_and_rank_loop b name D I slots acc =
       Inr (acc @ map (\<lambda>i. slot_document md (D ! i) (I ! i))
                    (filter (\<lambda>i. I ! i \<noteq> - 1) slots))"
proof (induction slots arbitrary: acc)
  case Nil
  then show ?case by simp
next
  case (Cons i slots)
  from Cons.prems have ok: "slot_ok md D I i" and rest: "\<forall>i \<in> set slots. slot_ok md D I i"
    by simp_all
  note IH = Cons.IH [OF Cons.prems(1) rest]
  show ?case
  proof (cases "I ! i = - 1")
    case True
    with ok IH Cons.prems(1) show ?thesis
      by (simp add: py_get_nat slot_ok_def)
  next
    case False
    with ok have r: "0 \<le> I ! i" "I ! i < int (length (documents md))"
      and t: "map_of (documents md ! nat (I ! i)) ''title'' \<noteq> None"
      and s: "map_of (documents md ! nat (I ! i)) ''summary'' \<noteq> None"
      and l: "i < length I" "i < length D"
      by (simp_all add: slot_ok_def)
    from t s obtain tv sv where
      tv: "map_of (documents md ! nat (I ! i)) ''title'' = Some tv"
      and sv: "map_of (documents md ! nat (I ! i)) ''summary'' = Some sv"
      by auto
    show ?thesis
      using False l Cons.prems(1) IH
      by (simp add: py_get_nat py_get_in_range [OF r] getitem_def tv sv slot_document_def)
  qed
qed

lemma load_corpus_fold:
  "fold (load_corpus env) names (ix, md) = (ix', md') \<Longrightarrow>
   ix' n = (if n \<in> set names
            then (case read_index env n of Inl e \<Rightarrow> ix n | Inr i \<Rightarrow> Some i)
            else ix n)
   \<and> md' n = (if n \<in> set names
              then (case read_index env n of
                      Inl e \<Rightarrow> md n
                    | Inr i \<Rightarrow> (case pickle_load env n of Inl e \<Rightarrow> md n | Inr m \<Rightarrow> Some m))
              else md n)"
proof (induction names arbitrary: ix md)
  case Nil
  then show ?case by simp
next
  case (Cons a names)
  obtain ix1 md1 where step: "load_corpus env a (ix, md) = (ix1, md1)"
    by (cases "load_corpus env a (ix, md)")
  with Cons.prems have "fold (load_corpus env) names (ix1, md1) = (ix', md')"
    by simp
  from Cons.IH [OF this] step show ?case
    by (auto simp: load_corpus_def split: sum.splits if_splits)
qed

lemma loop_step:
  assumes "search_and_rank_loop b name D I (i # slots) acc = Inr r" and "I ! i \<noteq> - 1"
  shows "i < length I \<and> (\<exists>d. metadata_score d = D ! i
            \<and> search_and_rank_loop b name D I slots (acc @ [d]) = Inr r)"
proof (cases "i < length I")
  case False
  with assms show ?thesis by (simp add: py_get_nat)
next
  case True
  from assms True obtain md meta where md: "metadata b name = Some md"
    and meta: "py_get (documents md) (I ! i) = Inr meta"
    by (simp add: py_get_nat split: option.splits sum.splits)
  from assms True md meta have iD: "i < length D"
    by (simp add: py_get_nat split: if_splits)
  from assms True md meta iD obtain s t where "getitem meta ''summary'' = Inr s"
    and "getitem meta ''title'' = Inr t"
    by (simp add: py_get_nat split: sum.splits)
  with assms True md meta iD have
    "search_and_rank_loop b name D I slots
       (acc @ [\<lparr> page_content = s, metadata_title = t, metadata_score = D ! i \<rparr>]) = Inr r"
    by (simp add: py_get_nat)
  then have "\<exists>d. metadata_score d = D ! i
      \<and> search_and_rank_loop b name D I slots (acc @ [d]) = Inr r"
    by (intro exI [of _ "\<lparr> page_content = s, metadata_title = t, metadata_score = D ! i \<rparr>"]) simp
  with True show ?thesis by simp
qed

lemma loop_scores:
  "search_and_rank_loop b name D I slots acc = Inr r
   \<Longrightarrow> map metadata_score r =
       map metadata_score acc @ map (\<lambda>i. D ! i) (filter (\<lambda>i. I ! i \<noteq> - 1) slots)"
proof (induction slots arbitrary: acc)
  case Nil
  then show ?case by simp
next
  case (Cons i slots)
  show ?case
  proof (cases "I ! i = - 1")
    case True
    have "i < length I"
      using Cons.prems by (simp add: py_get_nat split: if_splits)
    with Cons.prems True have "search_and_rank_loop b name D I slots acc = Inr r"
      by (simp add: py_get_nat)
    from Cons.IH [OF this] True show ?thesis by simp
  next
    case False
    from loop_step [OF Cons.prems False] obtain d where
      sc: "metadata_score d = D ! i"
      and d: "search_and_rank_loop b name D I slots (acc @ [d]) = Inr r"
      by blast
    from Cons.IH [OF d] sc False show ?thesis by simp
  qed
qed

lemma ok_slots:
  assumes c: "corpus_ok ix md" and f: "faiss_result_ok (ntotal ix) k (D, I)" and i: "i < k"
  shows "slot_ok md D I i"
proof -
  let ?n = "ntotal ix"
  from f have len: "length D = k" "length I = k"
    and rng: "list_all (\<lambda>j. 0 \<le> j \<and> j < int ?n) (take ?n I)"
    and rest: "list_all (\<lambda>j. j = - 1) (drop ?n I)"
    by (simp_all add: faiss_result_ok_def)
  show ?thesis
  proof (cases "i < ?n")
    case True
    with i len have "take ?n I ! i = I ! i" "i < length (take ?n I)"
      by simp_all
    then have "I ! i \<in> set (take ?n I)"
      using nth_mem by metis
    with rng have r: "0 \<le> I ! i" "I ! i < int ?n"
      by (simp_all add: list_all_iff)
    with c have "nat (I ! i) < length (documents md)"
      by (simp add: corpus_ok_def)
    with c have "map_of (documents md ! nat (I ! i)) ''title'' \<noteq> None
        \<and> map_of (documents md ! nat (I ! i)) ''summary'' \<noteq> None"
      by (simp add: corpus_ok_def list_all_length)
    with r c i len show ?thesis
      by (simp add: slot_ok_def corpus_ok_def)
  next
    case False
    with i len have "drop ?n I ! (i - ?n) = I ! i" "i - ?n < length (drop ?n I)"
      by simp_all
    then have "I ! i \<in> set (drop ?n I)"
      using nth_mem by metis
    with rest have "I ! i = - 1"
      by (simp add: list_all_iff)
    with i len show ?thesis
      by (simp add: slot_ok_def)
  qed
qed

lemma faiss_filter_slots:
  assumes f: "faiss_result_ok n k (D, I)" and nk: "n \<le> k"
  shows "filter (\<lambda>i. I ! i \<noteq> - 1) [0..<k] = [0..<n]"
proof -
  from f have len: "length I = k"
    and rng: "list_all (\<lambda>j. 0 \<le> j \<and> j < int n) (take n I)"
    and rest: "list_all (\<lambda>j. j = - 1) (drop n I)"
    by (simp_all add: faiss_result_ok_def)
  have a: "\<forall>i \<in> set [0..<n]. I ! i \<noteq> - 1"
  proof
    fix i assume "i \<in> set [0..<n]"
    with nk len have "take n I ! i = I ! i" "i < length (take n I)"
      by simp_all
    then have "I ! i \<in> set (take n I)"
      using nth_mem by metis
    with rng show "I ! i \<noteq> - 1"
      by (auto simp: list_all_iff)
  qed
  have b: "\<forall>i \<in> set [n..<k]. \<not> I ! i \<noteq> - 1"
  proof
    fix i assume "i \<in> set [n..<k]"
    with len have "drop n I ! (i - n) = I ! i" "i - n < length (drop n I)"
      by auto
    then have "I ! i \<in> set (drop n I)"
      using nth_mem by metis
    with rest show "\<not> I ! i \<noteq> - 1"
      by (simp add: list_all_iff)
  qed
  from nk have "[0..<k] = [0..<n] @ [n..<k]"
    using upt_add_eq_append [of 0 n "k - n"] by simp
  then show ?thesis
    using a b by (simp add: filter_id_conv filter_empty_conv)
qed

lemma faiss_positions:
  assumes f: "faiss_result_ok n k (D, I)" and nk: "n \<le> k" and p: "p < n"
  shows "\<exists>i < n. I ! i = int p"
proof -
  from f nk have len: "length (take n I) = n"
    and dist: "distinct (take n I)"
    and rng: "list_all (\<lambda>j. 0 \<le> j \<and> j < int n) (take n I)"
    by (simp_all add: faiss_result_ok_def)
  have sub: "set (take n I) \<subseteq> int ` {0..<n}"
  proof
    fix j assume "j \<in> set (take n I)"
    with rng have "0 \<le> j" "j < int n" by (simp_all add: list_all_iff)
    then have "j = int (nat j)" "nat j \<in> {0..<n}" by simp_all
    then show "j \<in> int ` {0..<n}" by blast
  qed
  have "card (set (take n I)) = n"
    using dist len by (simp add: distinct_card)
  moreover have "card (int ` {0..<n}) = n"
    by (simp add: card_image)
  ultimately have "set (take n I) = int ` {0..<n}"
    using sub by (simp add: card_subset_eq)
  with p have "int p \<in> set (take n I)" by auto
  then obtain i where "i < length (take n I)" "take n I ! i = int p"
    by (auto simp: in_set_conv_nth)
  with len show ?thesis by auto
qed

lemma search_and_rank_cong:
  assumes "indexes b1 name = indexes b2 name" "metadata b1 name = metadata b2 name"
    "model b1 q = model b2 q"
  shows "search_and_rank b1 q name = search_and_rank b2 q name"
  using assms loop_cong [OF assms(2)]
  by (simp add: search_and_rank_def vector_search_def split: option.splits prod.splits)

lemma loop_all_sentinel:
  "\<forall>i \<in> set slots. i < length I \<and> I ! i = - 1
   \<Longrightarrow> search_and_rank_loop b name D I slots acc = Inr acc"
  by (induction slots) (simp_all add: py_get_nat)

section \<open>The vector search step\<close>

text \<open>
  Claim C5. The vector search step of \<open>search_and_rank\<close> yields at most
  \<open>TOP_K_RETRIEVAL = 7\<close> candidates. On a corpus with one complete record per vector,
  and a search result of the shape FAISS returns, it raises nothing and yields one
  candidate for each slot whose position is not \<open>-1\<close>, in slot order: the sentinel
  slots are skipped. When the corpus has fewer than seven vectors, the candidates are
  the documents of all its positions.
\<close>

theorem vector_search_candidates:
  "(vector_search b ix q name = Inr cands \<longrightarrow> length cands \<le> TOP_K_RETRIEVAL)
   \<and> (metadata b name = Some md \<and> corpus_ok ix md
        \<and> search ix (model b q) TOP_K_RETRIEVAL = (D, I)
        \<and> faiss_result_ok (ntotal ix) TOP_K_RETRIEVAL (D, I)
      \<longrightarrow> vector_search b ix q name =
            Inr (map (\<lambda>i. slot_document md (D ! i) (I ! i))
                   (filter (\<lambda>i. I ! i \<noteq> - 1) [0..<TOP_K_RETRIEVAL]))
          \<and> (ntotal ix < TOP_K_RETRIEVAL
               \<longrightarrow> vector_search b ix q name =
                     Inr (map (\<lambda>i. slot_document md (D ! i) (I ! i)) [0..<ntotal ix])
                   \<and> (\<forall>p < ntotal ix. \<exists>i < ntotal ix. I ! i = int p)))"
proof (intro conjI impI)
  assume "vector_search b ix q name = Inr cands"
  then have "length cands \<le> length ([] :: document list) + length [0..<TOP_K_RETRIEVAL]"
    by (auto simp: vector_search_def split: prod.splits dest: loop_length)
  then show "length cands \<le> TOP_K_RETRIEVAL" by simp
next
  assume h: "metadata b name = Some md \<and> corpus_ok ix md
        \<and> search ix (model b q) TOP_K_RETRIEVAL = (D, I)
        \<and> faiss_result_ok (ntotal ix) TOP_K_RETRIEVAL (D, I)"
  then have ok: "\<forall>i \<in> set [0..<TOP_K_RETRIEVAL]. slot_ok md D I i"
    using ok_slots [of ix md TOP_K_RETRIEVAL D I] by simp
  from h have md: "metadata b name = Some md" by simp
  show all: "vector_search b ix q name =
            Inr (map (\<lambda>i. slot_document md (D ! i) (I ! i))
                   (filter (\<lambda>i. I ! i \<noteq> - 1) [0..<TOP_K_RETRIEVAL]))"
    using h loop_ok [OF md ok, of "[]"] by (simp add: vector_search_def)
  {
    assume less: "ntotal ix < TOP_K_RETRIEVAL"
    with h have "filter (\<lambda>i. I ! i \<noteq> - 1) [0..<TOP_K_RETRIEVAL] = [0..<ntotal ix]"
      using faiss_filter_slots [of "ntotal ix" TOP_K_RETRIEVAL D I] by simp
    with all show "vector_search b ix q name =
        Inr (map (\<lambda>i. slot_document md (D ! i) (I ! i)) [0..<ntotal ix])"
      by simp
    show "\<forall>p < ntotal ix. \<exists>i < ntotal ix. I ! i = int p"
      using h less faiss_positions [of "ntotal ix" TOP_K_RETRIEVAL D I] by simp
  }
qed

theorem vector_search_candidates_witness:
  "vector_search sample_bot sample_lore_index ''Who is Johnny Silverhand?'' ''lore'' =
     Inr [\<lparr> page_content = ''title: Johnny Silverhand. role: rockerboy.'',
            metadata_title = ''Johnny Silverhand'', metadata_score = 1 / 2 \<rparr>,
          \<lparr> page_content = ''title: Arasaka. type: corporation.'',
            metadata_title = ''Arasaka'', metadata_score = 7 / 10 \<rparr>]"
proof -
  let ?D = "[1 / 2, 7 / 10, FLT_MAX, FLT_MAX, FLT_MAX, FLT_MAX, FLT_MAX] :: real list"
  let ?I = "[0, 1, - 1, - 1, - 1, - 1, - 1] :: int list"
  have a: "metadata sample_bot ''lore'' = Some sample_lore_metadata"
    by (simp add: sample_bot_def)
  have b: "corpus_ok sample_lore_index sample_lore_metadata"
    by (simp add: corpus_ok_def sample_lore_index_def sample_lore_metadata_def)
  have c: "search sample_lore_index (model sample_bot ''Who is Johnny Silverhand?'')
             TOP_K_RETRIEVAL = (?D, ?I)"
    by (simp add: sample_lore_index_def)
  have d: "faiss_result_ok (ntotal sample_lore_index) TOP_K_RETRIEVAL (?D, ?I)"
    by (simp add: faiss_result_ok_def sample_lore_index_def TOP_K_RETRIEVAL_def)
  have e: "ntotal sample_lore_index < TOP_K_RETRIEVAL"
    by (simp add: sample_lore_index_def TOP_K_RETRIEVAL_def)
  have n: "[0..<ntotal sample_lore_index] = [0, 1]"
    by (simp add: sample_lore_index_def upt_rec)
  from vector_search_candidates [of sample_bot sample_lore_index
      "''Who is Johnny Silverhand?''" "''lore''" "[]" sample_lore_metadata ?D ?I] a b c d e
  have "vector_search sample_bot sample_lore_index ''Who is Johnny Silverhand?'' ''lore'' =
      Inr (map (\<lambda>i. slot_document sample_lore_metadata (?D ! i) (?I ! i))
             [0..<ntotal sample_lore_index])"
    by blast
  then show ?thesis
    unfolding n by (simp add: slot_document_def sample_lore_metadata_def)
qed


section \<open>Ranking and truncation\<close>

text \<open>
  Claim C6. When the vector search yields candidates, \<open>search_and_rank\<close> returns a
  list of at most four of them, ascending in their score; candidates of equal score
  appear in their order of the vector search, earliest first (the sort is stable); up
  to four candidates are all kept. Each result carries a summary, a title and a score,
  and \<open>ask_rag\<close> hands this list, in this order, to the chain and returns its titles in
  the same order.
\<close>

theorem search_and_rank_sorted:
  assumes ix: "indexes b name = Some ix" and vs: "vector_search b ix q name = Inr cands"
  shows "\<exists>r. search_and_rank b q name = Inr r
           \<and> length r \<le> 4
           \<and> sorted (map metadata_score r)
           \<and> (\<forall>s. prefix (filter (\<lambda>d. metadata_score d = s) r)
                         (filter (\<lambda>d. metadata_score d = s) cands))
           \<and> set r \<subseteq> set cands
           \<and> (length cands \<le> 4 \<longrightarrow> set r = set cands \<and> length r = length cands)
           \<and> (name = ''lore'' \<and> r \<noteq> [] \<and> rag_chain b = Some c
                \<longrightarrow> ask_rag b q = Inr (Stream (c r q), map metadata_title r))"
proof -
  let ?r = "take 4 (sort_key metadata_score cands)"
  have res: "search_and_rank b q name = Inr ?r"
    using ix vs by (simp add: search_and_rank_def)
  have len: "length ?r \<le> 4" by simp
  have "sorted (map metadata_score (sort_key metadata_score cands))"
    by (rule sorted_sort_key)
  then have srt: "sorted (map metadata_score ?r)"
    unfolding take_map [symmetric] by (rule sorted_wrt_take)
  have stab: "prefix (filter (\<lambda>d. metadata_score d = s) ?r)
                     (filter (\<lambda>d. metadata_score d = s) cands)" for s
    using filter_mono_prefix [OF take_is_prefix, of "\<lambda>d. metadata_score d = s" 4
        "sort_key metadata_score cands"]
    by (simp add: sort_key_stable)
  have sub: "set ?r \<subseteq> set cands"
    using set_take_subset [of 4 "sort_key metadata_score cands"] by simp
  have small: "length cands \<le> 4 \<longrightarrow> set ?r = set cands \<and> length ?r = length cands"
    by simp
  have ask: "name = ''lore'' \<and> ?r \<noteq> [] \<and> rag_chain b = Some c
      \<longrightarrow> ask_rag b q = Inr (Stream (c ?r q), map metadata_title ?r)"
    using res by (auto simp: ask_rag_def)
  from res len srt stab sub small ask show ?thesis by blast
qed

theorem search_and_rank_sorted_witness:
  "\<exists>r. search_and_rank sample_bot ''Who is Johnny Silverhand?'' ''lore'' = Inr r
       \<and> length r \<le> 4 \<and> sorted (map metadata_score r)
       \<and> ask_rag sample_bot ''Who is Johnny Silverhand?'' =
           Inr (Stream (sample_chain r ''Who is Johnny Silverhand?''), map metadata_title r)"
proof -
  have a: "indexes sample_bot ''lore'' = Some sample_lore_index"
    by (simp add: sample_bot_def)
  have b: "vector_search sample_bot sample_lore_index ''Who is Johnny Silverhand?'' ''lore'' =
     Inr [\<lparr> page_content = ''title: Johnny Silverhand. role: rockerboy.'',
            metadata_title = ''Johnny Silverhand'', metadata_score = 1 / 2 \<rparr>,
          \<lparr> page_content = ''title: Arasaka. type: corporation.'',
            metadata_title = ''Arasaka'', metadata_score = 7 / 10 \<rparr>]"
    by (simp add: vector_search_def sample_bot_def sample_lore_index_def
        sample_lore_metadata_def slots_7 py_get_def getitem_def)
  have c: "rag_chain sample_bot = Some sample_chain"
    by (simp add: sample_bot_def)
  from search_and_rank_sorted [OF a b, of sample_chain] obtain r where
    r: "search_and_rank sample_bot ''Who is Johnny Silverhand?'' ''lore'' = Inr r"
    "length r \<le> 4" "sorted (map metadata_score r)"
    "length [\<lparr> page_content = ''title: Johnny Silverhand. role: rockerboy.'',
            metadata_title = ''Johnny Silverhand'', metadata_score = 1 / 2 \<rparr>,
          \<lparr> page_content = ''title: Arasaka. type: corporation.'',
            metadata_title = ''Arasaka'', metadata_score = 7 / 10 \<rparr>] \<le> 4
      \<longrightarrow> length r = length [\<lparr> page_content = ''title: Johnny Silverhand. role: rockerboy.'',
            metadata_title = ''Johnny Silverhand'', metadata_score = 1 / 2 \<rparr>,
          \<lparr> page_content = ''title: Arasaka. type: corporation.'',
            metadata_title = ''Arasaka'', metadata_score = (7 / 10 :: real) \<rparr>]"
    "''lore'' = ''lore'' \<and> r \<noteq> [] \<and> rag_chain sample_bot = Some sample_chain
      \<longrightarrow> ask_rag sample_bot ''Who is Johnny Silverhand?'' =
           Inr (Stream (sample_chain r ''Who is Johnny Silverhand?''), map metadata_title r)"
    by blast
  from r(4) have "r \<noteq> []" by auto
  with r c show ?thesis by blast
qed


section \<open>Empty results\<close>

text \<open>
  Claim C7. When the index of the corpus was not loaded, \<open>search_and_rank\<close> returns the
  empty list and raises nothing; so it does when the vector search yields no candidate,
  as when every slot of the search holds the sentinel \<open>-1\<close>. On an empty list for the
  lore corpus \<open>ask_rag\<close> returns its fixed reply with no sources, without an exception.
\<close>

theorem empty_result_no_error:
  "(indexes b name = None \<longrightarrow> search_and_rank b q name = Inr [])
   \<and> (indexes b name = Some ix \<and> vector_search b ix q name = Inr []
        \<longrightarrow> search_and_rank b q name = Inr [])
   \<and> (search ix (model b q) TOP_K_RETRIEVAL = (D, I) \<and> I = replicate TOP_K_RETRIEVAL (- 1)
        \<longrightarrow> vector_search b ix q name = Inr [])
   \<and> (search_and_rank b q ''lore'' = Inr []
        \<longrightarrow> ask_rag b q = Inr (Text ''Got nothing on that, choomba.'', []))"
proof (intro conjI impI)
  assume h: "search ix (model b q) TOP_K_RETRIEVAL = (D, I) \<and> I = replicate TOP_K_RETRIEVAL (- 1)"
  then have "\<forall>i \<in> set [0..<TOP_K_RETRIEVAL]. i < length I \<and> I ! i = - 1"
    by simp
  from loop_all_sentinel [OF this] h show "vector_search b ix q name = Inr []"
    by (simp add: vector_search_def)
qed (simp_all add: search_and_rank_def ask_rag_def)

theorem empty_result_no_error_witness:
  "search_and_rank no_lore_bot ''Who is Johnny Silverhand?'' ''lore'' = Inr []
   \<and> ask_rag no_lore_bot ''Who is Johnny Silverhand?'' =
       Inr (Text ''Got nothing on that, choomba.'', [])
   \<and> vector_search empty_lore_bot empty_index ''Who is Johnny Silverhand?'' ''lore'' = Inr []
   \<and> search_and_rank empty_lore_bot ''Who is Johnny Silverhand?'' ''lore'' = Inr []
   \<and> ask_rag empty_lore_bot ''Who is Johnny Silverhand?'' =
       Inr (Text ''Got nothing on that, choomba.'', [])"
proof -
  let ?q = "''Who is Johnny Silverhand?''"
  let ?D = "[FLT_MAX, FLT_MAX, FLT_MAX, FLT_MAX, FLT_MAX, FLT_MAX, FLT_MAX]"
  let ?I = "[- 1, - 1, - 1, - 1, - 1, - 1, - 1] :: int list"
  have a: "indexes no_lore_bot ''lore'' = None"
    by (simp add: no_lore_bot_def sample_bot_def)
  from empty_result_no_error [of no_lore_bot "''lore''" ?q] a
  have 1: "search_and_rank no_lore_bot ?q ''lore'' = Inr []" by blast
  from empty_result_no_error [of no_lore_bot "''lore''" ?q] 1
  have 2: "ask_rag no_lore_bot ?q = Inr (Text ''Got nothing on that, choomba.'', [])" by blast
  have b: "indexes empty_lore_bot ''lore'' = Some empty_index"
    by (simp add: empty_lore_bot_def sample_bot_def)
  have c: "search empty_index (model empty_lore_bot ?q) TOP_K_RETRIEVAL = (?D, ?I)"
    by (simp add: empty_index_def)
  have d: "?I = replicate TOP_K_RETRIEVAL (- 1)"
    by (simp add: TOP_K_RETRIEVAL_def numeral_eq_Suc)
  from empty_result_no_error [of empty_lore_bot "''lore''" ?q empty_index ?D ?I] c d
  have 3: "vector_search empty_lore_bot empty_index ?q ''lore'' = Inr []" by blast
  from empty_result_no_error [of empty_lore_bot "''lore''" ?q empty_index] b 3
  have 4: "search_and_rank empty_lore_bot ?q ''lore'' = Inr []" by blast
  from empty_result_no_error [of empty_lore_bot "''lore''" ?q] 4
  have 5: "ask_rag empty_lore_bot ?q = Inr (Text ''Got nothing on that, choomba.'', [])" by blast
  from 1 2 3 4 5 show ?thesis by blast
qed


section \<open>Further facts about sorting, the samples and construction\<close>

lemma map_insort_key: "map f (insort_key f x xs) = insort (f x) (map f xs)"
  by (induction xs) simp_all

lemma map_sort_key: "map f (sort_key f xs) = sort (map f xs)"
  by (induction xs) (simp_all add: map_insort_key)

lemma sample_init: "CyberpunkBot_init sample_env = Inr sample_bot"
  by (auto simp: CyberpunkBot_init_def sample_env_def sample_bot_def load_corpus_def
      init_llm_def init_chain_def lower_def lower_char_def fun_eq_iff)

lemma broken_init: "CyberpunkBot_init broken_env = Inr broken_bot"
  by (auto simp: CyberpunkBot_init_def broken_env_def broken_bot_def sample_env_def
      sample_bot_def load_corpus_def init_llm_def init_chain_def lower_def lower_char_def
      fun_eq_iff)

lemma sample_lore_search:
  "search_and_rank sample_bot q ''lore'' =
     Inr [\<lparr> page_content = ''title: Johnny Silverhand. role: rockerboy.'',
            metadata_title = ''Johnny Silverhand'', metadata_score = 1 / 2 \<rparr>,
          \<lparr> page_content = ''title: Arasaka. type: corporation.'',
            metadata_title = ''Arasaka'', metadata_score = 7 / 10 \<rparr>]"
  by (simp add: search_and_rank_def vector_search_def sample_bot_def sample_lore_index_def
      sample_lore_metadata_def slots_7 py_get_def getitem_def)

lemma ask_rag_cong:
  assumes "indexes b1 ''lore'' = indexes b2 ''lore''" "metadata b1 ''lore'' = metadata b2 ''lore''"
    "model b1 q = model b2 q" "rag_chain b1 = rag_chain b2"
  shows "ask_rag b1 q = ask_rag b2 q"
  using search_and_rank_cong [OF assms(1-3)] assms(4)
  by (simp add: ask_rag_def split: sum.splits)

lemma init_corpora:
  assumes "CyberpunkBot_init env = Inr b"
  shows "indexes b n =
           (if n \<in> {''lore'', ''timeline'', ''slang''}
            then (case read_index env n of Inl e \<Rightarrow> None | Inr i \<Rightarrow> Some i)
            else None)"
    and "metadata b n =
           (if n \<in> {''lore'', ''timeline'', ''slang''}
            then (case read_index env n of
                    Inl e \<Rightarrow> None
                  | Inr i \<Rightarrow> (case pickle_load env n of Inl e \<Rightarrow> None | Inr m \<Rightarrow> Some m))
            else None)"
proof -
  obtain ix md where f: "fold (load_corpus env) [''lore'', ''timeline'', ''slang'']
      (Map.empty, Map.empty) = (ix, md)"
    by (cases "fold (load_corpus env) [''lore'', ''timeline'', ''slang''] (Map.empty, Map.empty)")
  from assms f have b: "indexes b = ix" "metadata b = md"
    by (auto simp: CyberpunkBot_init_def Let_def simp del: fold_simps split: sum.splits)
  from load_corpus_fold [OF f, of n] b
  show "indexes b n =
           (if n \<in> {''lore'', ''timeline'', ''slang''}
            then (case read_index env n of Inl e \<Rightarrow> None | Inr i \<Rightarrow> Some i)
            else None)"
    and "metadata b n =
           (if n \<in> {''lore'', ''timeline'', ''slang''}
            then (case read_index env n of
                    Inl e \<Rightarrow> None
                  | Inr i \<Rightarrow> (case pickle_load env n of Inl e \<Rightarrow> None | Inr m \<Rightarrow> Some m))
            else None)"
    by simp_all
qed


section \<open>The score used for ranking\<close>

text \<open>
  Claim C1 says that the score is the raw distance minus the type boost and minus the
  entity boost per shared entity. On the sample snapshot the query is classified
  \<open>person\<close>, the first record is typed \<open>character\<close> and shares one entity with the
  query, and its score is still the raw distance \<open>1/2\<close>, which differs from the
  boosted value under either reading of the type match.
\<close>

theorem score_without_boost_counterexample:
  "search_and_rank sample_bot ''Who is Johnny Silverhand?'' ''lore'' =
     Inr [\<lparr> page_content = ''title: Johnny Silverhand. role: rockerboy.'',
            metadata_title = ''Johnny Silverhand'', metadata_score = 1 / 2 \<rparr>,
          \<lparr> page_content = ''title: Arasaka. type: corporation.'',
            metadata_title = ''Arasaka'', metadata_score = 7 / 10 \<rparr>]
   \<and> search sample_lore_index (model sample_bot ''Who is Johnny Silverhand?'') TOP_K_RETRIEVAL =
       ([1 / 2, 7 / 10, FLT_MAX, FLT_MAX, FLT_MAX, FLT_MAX, FLT_MAX], [0, 1, - 1, - 1, - 1, - 1, - 1])
   \<and> classify_intent ''Who is Johnny Silverhand?'' = ''person''
   \<and> type_map sample_bot ''Johnny Silverhand'' = Some ''character''
   \<and> extract_query_entities sample_bot ''Who is Johnny Silverhand?'' = {''johnny silverhand''}
   \<and> ner_entities sample_bot ''Johnny Silverhand'' = Some {''johnny silverhand'', ''night city''}
   \<and> card ({''johnny silverhand''} \<inter> {''johnny silverhand'', ''night city''}) = Suc 0
   \<and> (1 / 2 :: real) \<noteq> 1 / 2 - BOOST_VALUE - NER_BOOST_PER_MATCH * 1
   \<and> (1 / 2 :: real) \<noteq> 1 / 2 - 0 - NER_BOOST_PER_MATCH * 1"
proof -
  have "classify_intent ''Who is Johnny Silverhand?'' = ''person''"
    by (simp add: classify_intent_def lower_def lower_char_def)
  moreover have "extract_query_entities sample_bot ''Who is Johnny Silverhand?'' = {''johnny silverhand''}"
    by (simp add: extract_query_entities_def sample_bot_def lower_def lower_char_def)
  moreover have "type_map sample_bot ''Johnny Silverhand'' = Some ''character''"
    "ner_entities sample_bot ''Johnny Silverhand'' = Some {''johnny silverhand'', ''night city''}"
    "search sample_lore_index (model sample_bot ''Who is Johnny Silverhand?'') TOP_K_RETRIEVAL =
       ([1 / 2, 7 / 10, FLT_MAX, FLT_MAX, FLT_MAX, FLT_MAX, FLT_MAX], [0, 1, - 1, - 1, - 1, - 1, - 1])"
    by (simp_all add: sample_bot_def sample_lore_index_def)
  moreover have "card ({''johnny silverhand''} \<inter> {''johnny silverhand'', ''night city''}) = Suc 0"
    by simp
  moreover have "(1 / 2 :: real) \<noteq> 1 / 2 - BOOST_VALUE - NER_BOOST_PER_MATCH * 1"
    "(1 / 2 :: real) \<noteq> 1 / 2 - 0 - NER_BOOST_PER_MATCH * 1"
    by (simp_all add: BOOST_VALUE_def NER_BOOST_PER_MATCH_def)
  ultimately show ?thesis
    using sample_lore_search [of "''Who is Johnny Silverhand?''"] by blast
qed

text \<open>
  Claim C1, amended. For every query, the scores of the results of \<open>search_and_rank\<close>
  are the four smallest raw distances of the slots whose position is not \<open>-1\<close>, in
  ascending order: neither \<open>BOOST_VALUE\<close> nor \<open>NER_BOOST_PER_MATCH\<close> is subtracted, and
  the result does not depend on the entity model, the type map or the entity sets.
\<close>

theorem score_is_raw_distance:
  "(indexes b name = Some ix \<and> search ix (model b q) TOP_K_RETRIEVAL = (D, I)
      \<and> search_and_rank b q name = Inr r
     \<longrightarrow> map metadata_score r =
           take 4 (sort (map (\<lambda>i. D ! i) (filter (\<lambda>i. I ! i \<noteq> - 1) [0..<TOP_K_RETRIEVAL]))))
   \<and> search_and_rank (b \<lparr> nlp := p, type_map := t, ner_entities := n \<rparr>) q name =
       search_and_rank b q name"
proof (intro conjI impI)
  assume h: "indexes b name = Some ix \<and> search ix (model b q) TOP_K_RETRIEVAL = (D, I)
      \<and> search_and_rank b q name = Inr r"
  then obtain cands where
    c: "search_and_rank_loop b name D I [0..<TOP_K_RETRIEVAL] [] = Inr cands"
    and r: "r = take 4 (sort_key metadata_score cands)"
    by (auto simp: search_and_rank_def vector_search_def split: sum.splits)
  from loop_scores [OF c] have
    "map metadata_score cands =
       map (\<lambda>i. D ! i) (filter (\<lambda>i. I ! i \<noteq> - 1) [0..<TOP_K_RETRIEVAL])"
    by simp
  with r show "map metadata_score r =
      take 4 (sort (map (\<lambda>i. D ! i) (filter (\<lambda>i. I ! i \<noteq> - 1) [0..<TOP_K_RETRIEVAL])))"
    by (simp add: take_map [symmetric] map_sort_key)
next
  show "search_and_rank (b \<lparr> nlp := p, type_map := t, ner_entities := n \<rparr>) q name =
       search_and_rank b q name"
    by (rule search_and_rank_cong) simp_all
qed

theorem score_is_raw_distance_witness:
  "map metadata_score
     [\<lparr> page_content = ''title: Johnny Silverhand. role: rockerboy.'',
        metadata_title = ''Johnny Silverhand'', metadata_score = 1 / 2 \<rparr>,
      \<lparr> page_content = ''title: Arasaka. type: corporation.'',
        metadata_title = ''Arasaka'', metadata_score = 7 / 10 \<rparr>] =
   take 4 (sort (map (\<lambda>i. [1 / 2, 7 / 10, FLT_MAX, FLT_MAX, FLT_MAX, FLT_MAX, FLT_MAX] ! i)
                   (filter (\<lambda>i. [0, 1, - 1, - 1, - 1, - 1, - 1 :: int] ! i \<noteq> - 1)
                      [0..<TOP_K_RETRIEVAL])))"
proof -
  have a: "indexes sample_bot ''lore'' = Some sample_lore_index"
    by (simp add: sample_bot_def)
  have b: "search sample_lore_index (model sample_bot ''Who is Johnny Silverhand?'') TOP_K_RETRIEVAL =
       ([1 / 2, 7 / 10, FLT_MAX, FLT_MAX, FLT_MAX, FLT_MAX, FLT_MAX], [0, 1, - 1, - 1, - 1, - 1, - 1])"
    by (simp add: sample_lore_index_def)
  from score_is_raw_distance [where b = sample_bot and name = "''lore''"
      and ix = sample_lore_index and q = "''Who is Johnny Silverhand?''"]
    a b sample_lore_search [of "''Who is Johnny Silverhand?''"]
  show ?thesis by blast
qed


section \<open>The corpus that is queried\<close>

text \<open>
  Claim C2 says that the corpus chosen by the classifier is the one queried. On the
  sample snapshot the query about the Fourth Corporate War is classified \<open>timeline\<close>
  and the timeline corpus is loaded and would answer, but \<open>ask_rag\<close> returns the
  documents of the lore corpus.
\<close>

theorem ask_rag_lore_counterexample:
  "classify_intent ''When did the Fourth Corporate War start?'' = ''timeline''
   \<and> indexes sample_bot ''timeline'' = Some sample_timeline_index
   \<and> search_and_rank sample_bot ''When did the Fourth Corporate War start?'' ''timeline'' =
       Inr [\<lparr> page_content = ''Timeline Event: the fourth corporate war begins. The year this occurred was: 2021.'',
              metadata_title = ''Timeline Event 2021'', metadata_score = 3 / 10 \<rparr>]
   \<and> ask_rag sample_bot ''When did the Fourth Corporate War start?'' =
       Inr (Stream [''title: Johnny Silverhand. role: rockerboy.'',
                    ''title: Arasaka. type: corporation.''],
            [''Johnny Silverhand'', ''Arasaka''])"
proof -
  have "classify_intent ''When did the Fourth Corporate War start?'' = ''timeline''"
    by (simp add: classify_intent_def lower_def lower_char_def)
  moreover have "indexes sample_bot ''timeline'' = Some sample_timeline_index"
    by (simp add: sample_bot_def)
  moreover have "search_and_rank sample_bot ''When did the Fourth Corporate War start?'' ''timeline'' =
       Inr [\<lparr> page_content = ''Timeline Event: the fourth corporate war begins. The year this occurred was: 2021.'',
              metadata_title = ''Timeline Event 2021'', metadata_score = 3 / 10 \<rparr>]"
    by (simp add: search_and_rank_def vector_search_def sample_bot_def sample_timeline_index_def
      sample_timeline_metadata_def slots_7 py_get_def getitem_def)
  moreover have "ask_rag sample_bot ''When did the Fourth Corporate War start?'' =
       Inr (Stream [''title: Johnny Silverhand. role: rockerboy.'',
                    ''title: Arasaka. type: corporation.''],
            [''Johnny Silverhand'', ''Arasaka''])"
    by (simp add: ask_rag_def sample_lore_search) (simp add: sample_bot_def sample_chain_def)
  ultimately show ?thesis by blast
qed

text \<open>
  Claim C2, amended. For every query, \<open>ask_rag\<close> queries the lore corpus, whatever the
  intent of the query: its sources are the titles of \<open>search_and_rank\<close> on \<open>lore\<close>, an
  exception of that search is its exception, and replacing or removing the index and
  the metadata of any other corpus leaves its result unchanged.
\<close>

theorem ask_rag_queries_lore:
  "(name \<noteq> ''lore''
      \<longrightarrow> ask_rag (b \<lparr> indexes := (indexes b)(name := ix),
                        metadata := (metadata b)(name := md) \<rparr>) q = ask_rag b q)
   \<and> (ask_rag b q = Inr (resp, titles)
      \<longrightarrow> (\<exists>docs. search_and_rank b q ''lore'' = Inr docs \<and> titles = map metadata_title docs))
   \<and> (search_and_rank b q ''lore'' = Inl e \<longrightarrow> ask_rag b q = Inl e)"
proof (intro conjI impI)
  assume "name \<noteq> ''lore''"
  then show "ask_rag (b \<lparr> indexes := (indexes b)(name := ix),
      metadata := (metadata b)(name := md) \<rparr>) q = ask_rag b q"
    by (intro ask_rag_cong) simp_all
next
  assume "ask_rag b q = Inr (resp, titles)"
  then show "\<exists>docs. search_and_rank b q ''lore'' = Inr docs \<and> titles = map metadata_title docs"
    by (auto simp: ask_rag_def split: sum.splits if_splits option.splits)
next
  assume "search_and_rank b q ''lore'' = Inl e"
  then show "ask_rag b q = Inl e"
    by (simp add: ask_rag_def)
qed

theorem ask_rag_queries_lore_witness:
  "ask_rag (sample_bot \<lparr> indexes := (indexes sample_bot)(''timeline'' := None),
                         metadata := (metadata sample_bot)(''timeline'' := None) \<rparr>)
     ''When did the Fourth Corporate War start?'' =
   ask_rag sample_bot ''When did the Fourth Corporate War start?''"
proof -
  have "''timeline'' \<noteq> ''lore''" by simp
  with ask_rag_queries_lore [of "''timeline''" sample_bot None None
      "''When did the Fourth Corporate War start?''"]
  show ?thesis by blast
qed


section \<open>Loading the corpora\<close>

text \<open>
  Claim C4 says that a corpus is loaded as a pair of equal length or not at all. The
  snapshot \<open>broken_env\<close> is accepted by \<open>initialize_bot\<close> although its timeline index
  is registered without metadata and its lore metadata holds one record for an index
  of two vectors; both defects surface at query time, as \<open>KeyError\<close> and \<open>IndexError\<close>.
\<close>

theorem unchecked_load_counterexample:
  "initialize_bot broken_env = Some broken_bot
   \<and> indexes broken_bot ''timeline'' = Some sample_timeline_index
   \<and> metadata broken_bot ''timeline'' = None
   \<and> search_and_rank broken_bot ''When did the Fourth Corporate War start?'' ''timeline'' =
       Inl KeyError
   \<and> indexes broken_bot ''lore'' = Some sample_lore_index
   \<and> metadata broken_bot ''lore'' = Some short_lore_metadata
   \<and> ntotal sample_lore_index = 2
   \<and> length (documents short_lore_metadata) = 1
   \<and> search_and_rank broken_bot ''Who is Johnny Silverhand?'' ''lore'' = Inl IndexError
   \<and> ask_rag broken_bot ''Who is Johnny Silverhand?'' = Inl IndexError"
proof -
  have "initialize_bot broken_env = Some broken_bot"
    by (simp add: initialize_bot_def broken_init) (simp add: broken_bot_def sample_bot_def)
  moreover have "indexes broken_bot ''timeline'' = Some sample_timeline_index"
    "metadata broken_bot ''timeline'' = None"
    "indexes broken_bot ''lore'' = Some sample_lore_index"
    "metadata broken_bot ''lore'' = Some short_lore_metadata"
    by (simp_all add: broken_bot_def sample_bot_def)
  moreover have "ntotal sample_lore_index = 2" "length (documents short_lore_metadata) = 1"
    by (simp_all add: sample_lore_index_def short_lore_metadata_def)
  moreover have "search_and_rank broken_bot ''When did the Fourth Corporate War start?''
      ''timeline'' = Inl KeyError"
    by (simp add: search_and_rank_def vector_search_def broken_bot_def sample_bot_def
      sample_timeline_index_def slots_7 py_get_def getitem_def)
  moreover have l: "search_and_rank broken_bot ''Who is Johnny Silverhand?'' ''lore'' = Inl IndexError"
    by (simp add: search_and_rank_def vector_search_def broken_bot_def sample_bot_def
      sample_lore_index_def short_lore_metadata_def slots_7 py_get_def getitem_def)
  moreover have "ask_rag broken_bot ''Who is Johnny Silverhand?'' = Inl IndexError"
    by (simp add: ask_rag_def l)
  ultimately show ?thesis by blast
qed

text \<open>
  Claim C4, amended. At load time, for every corpus, the index is read before the
  metadata: when the index cannot be read, neither half is registered; metadata is
  never registered without its index; when both are read, both are registered as read,
  with no comparison of their lengths. Only the three corpus names are registered, and
  \<open>initialize_bot\<close> yields a bot only when both halves of the lore corpus are
  registered.
\<close>

theorem load_corpus_pairing:
  "(CyberpunkBot_init env = Inr b
      \<longrightarrow> dom (metadata b) \<subseteq> dom (indexes b)
        \<and> dom (indexes b) \<subseteq> {''lore'', ''timeline'', ''slang''}
        \<and> (read_index env n = Inl e \<longrightarrow> indexes b n = None \<and> metadata b n = None)
        \<and> (n \<in> {''lore'', ''timeline'', ''slang''} \<and> read_index env n = Inr i
             \<and> pickle_load env n = Inr m
           \<longrightarrow> indexes b n = Some i \<and> metadata b n = Some m))
   \<and> (initialize_bot env = Some b
      \<longrightarrow> indexes b ''lore'' \<noteq> None \<and> metadata b ''lore'' \<noteq> None)"
proof (intro conjI impI)
  assume h: "CyberpunkBot_init env = Inr b"
  show "dom (metadata b) \<subseteq> dom (indexes b)"
  proof
    fix k assume "k \<in> dom (metadata b)"
    then show "k \<in> dom (indexes b)"
      unfolding dom_def init_corpora [OF h] by (auto split: if_splits sum.splits)
  qed
  show "dom (indexes b) \<subseteq> {''lore'', ''timeline'', ''slang''}"
  proof
    fix k assume "k \<in> dom (indexes b)"
    then show "k \<in> {''lore'', ''timeline'', ''slang''}"
      unfolding dom_def init_corpora [OF h] by (auto split: if_splits sum.splits)
  qed
  {
    assume "read_index env n = Inl e"
    then show "indexes b n = None" "metadata b n = None"
      unfolding init_corpora [OF h] by simp_all
  }
  {
    assume "n \<in> {''lore'', ''timeline'', ''slang''} \<and> read_index env n = Inr i
             \<and> pickle_load env n = Inr m"
    then show "indexes b n = Some i" "metadata b n = Some m"
      unfolding init_corpora [OF h] by auto
  }
next
  assume "initialize_bot env = Some b"
  then have "indexes b ''lore'' \<noteq> None \<and> metadata b ''lore'' \<noteq> None"
    by (auto simp: initialize_bot_def split: sum.splits if_splits)
  then show "indexes b ''lore'' \<noteq> None" "metadata b ''lore'' \<noteq> None"
    by simp_all
qed

theorem load_corpus_pairing_witness:
  "indexes sample_bot ''lore'' = Some sample_lore_index
   \<and> metadata sample_bot ''lore'' = Some sample_lore_metadata
   \<and> indexes sample_bot ''slang'' = None \<and> metadata sample_bot ''slang'' = None"
proof -
  have a: "read_index sample_env ''lore'' = Inr sample_lore_index"
    "pickle_load sample_env ''lore'' = Inr sample_lore_metadata"
    "read_index sample_env ''slang'' = Inl OSError"
    by (simp_all add: sample_env_def)
  have b: "''lore'' \<in> {''lore'', ''timeline'', ''slang''}" by simp
  from load_corpus_pairing [of sample_env sample_bot "''lore''" _ sample_lore_index
      sample_lore_metadata] sample_init a b
  have 1: "indexes sample_bot ''lore'' = Some sample_lore_index
      \<and> metadata sample_bot ''lore'' = Some sample_lore_metadata"
    by blast
  from load_corpus_pairing [of sample_env sample_bot "''slang''" OSError] sample_init a
  have 2: "indexes sample_bot ''slang'' = None \<and> metadata sample_bot ''slang'' = None"
    by blast
  from 1 2 show ?thesis by blast
qed


section \<open>Determinism\<close>

text \<open>
  Claim C8. The result of \<open>search_and_rank\<close> is a function of the index and the
  metadata of the corpus and of the embedding of the query: two runs on snapshots that
  agree on these yield the same list in the same order, whatever else the bot holds;
  with the same chain, \<open>ask_rag\<close> yields the same reply and sources. No state is
  passed from one query to the next.
\<close>

theorem pipeline_deterministic:
  assumes "indexes b1 name = indexes b2 name" and "metadata b1 name = metadata b2 name"
    and "model b1 q = model b2 q"
  shows "search_and_rank b1 q name = search_and_rank b2 q name
         \<and> (name = ''lore'' \<and> rag_chain b1 = rag_chain b2 \<longrightarrow> ask_rag b1 q = ask_rag b2 q)"
proof -
  have sr: "search_and_rank b1 q name = search_and_rank b2 q name"
    by (rule search_and_rank_cong [OF assms])
  have "ask_rag b1 q = ask_rag b2 q" if "name = ''lore'' \<and> rag_chain b1 = rag_chain b2"
    using that sr by (simp add: ask_rag_def split: sum.splits)
  with sr show ?thesis by blast
qed

theorem pipeline_deterministic_witness:
  "search_and_rank sample_bot ''Who is Johnny Silverhand?'' ''lore'' =
     search_and_rank
       (sample_bot \<lparr> nlp := None, type_map := Map.empty, ner_entities := Map.empty,
                     llm := None \<rparr>)
       ''Who is Johnny Silverhand?'' ''lore''
   \<and> ask_rag sample_bot ''Who is Johnny Silverhand?'' =
       ask_rag
         (sample_bot \<lparr> nlp := None, type_map := Map.empty, ner_entities := Map.empty,
                       llm := None \<rparr>)
         ''Who is Johnny Silverhand?''"
  using pipeline_deterministic [of sample_bot "''lore''"
      "sample_bot \<lparr> nlp := None, type_map := Map.empty, ner_entities := Map.empty, llm := None \<rparr>"
      "''Who is Johnny Silverhand?''"]
  by simp


section \<open>Keywords inside longer words\<close>

text \<open>
  Claim C9. Keywords are matched as substrings of the lowercased query, not as words:
  a query in which \<open>when\<close>, \<open>year\<close> or \<open>timeline\<close> occurs anywhere is \<open>timeline\<close>;
  a query containing \<open>whole\<close> is \<open>person\<close> unless a timeline keyword occurs, and one
  containing \<open>nowhere\<close> is \<open>location\<close> unless a timeline or person keyword occurs.
\<close>

theorem classify_intent_substring:
  "(w \<in> {''when'', ''year'', ''timeline''} \<and> (sublist w q \<or> sublist w (lower q))
      \<longrightarrow> classify_intent q = ''timeline'')
   \<and> (sublist ''whole'' (lower q)
        \<and> \<not> sublist ''when'' (lower q) \<and> \<not> sublist ''year'' (lower q)
        \<and> \<not> sublist ''timeline'' (lower q)
      \<longrightarrow> classify_intent q = ''person'')
   \<and> (sublist ''nowhere'' (lower q)
        \<and> \<not> sublist ''when'' (lower q) \<and> \<not> sublist ''year'' (lower q)
        \<and> \<not> sublist ''timeline'' (lower q)
        \<and> \<not> sublist ''who'' (lower q) \<and> \<not> sublist ''person'' (lower q)
      \<longrightarrow> classify_intent q = ''location'')"
proof (intro conjI impI)
  assume a: "w \<in> {''when'', ''year'', ''timeline''} \<and> (sublist w q \<or> sublist w (lower q))"
  then have "sublist w (lower q)"
    using sublist_lower [of w q] lower_keyword [of w] by auto
  then show "classify_intent q = ''timeline''"
    using a by (auto simp: classify_intent_sublist)
next
  assume a: "sublist ''whole'' (lower q)
        \<and> \<not> sublist ''when'' (lower q) \<and> \<not> sublist ''year'' (lower q)
        \<and> \<not> sublist ''timeline'' (lower q)"
  have "sublist ''who'' ''whole''"
    by (simp add: contains_sublist [symmetric])
  then have "sublist ''who'' (lower q)"
    using a sublist_order.order_trans by blast
  then show "classify_intent q = ''person''"
    using a by (simp add: classify_intent_sublist)
next
  assume a: "sublist ''nowhere'' (lower q)
        \<and> \<not> sublist ''when'' (lower q) \<and> \<not> sublist ''year'' (lower q)
        \<and> \<not> sublist ''timeline'' (lower q)
        \<and> \<not> sublist ''who'' (lower q) \<and> \<not> sublist ''person'' (lower q)"
  have "sublist ''where'' ''nowhere''"
    by (simp add: contains_sublist [symmetric])
  then have "sublist ''where'' (lower q)"
    using a sublist_order.order_trans by blast
  then show "classify_intent q = ''location''"
    using a by (simp add: classify_intent_sublist)
qed

theorem classify_intent_substring_witness:
  "classify_intent ''Whenever you want'' = ''timeline''
   \<and> classify_intent ''Tell me the whole story'' = ''person''
   \<and> classify_intent ''A road to nowhere'' = ''location''"
proof -
  have l1: "lower ''Whenever you want'' = ''whenever you want''"
    and l2: "lower ''Tell me the whole story'' = ''tell me the whole story''"
    and l3: "lower ''A road to nowhere'' = ''a road to nowhere''"
    by (simp_all add: lower_def lower_char_def)
  have h1: "sublist ''when'' (lower ''Whenever you want'')"
    unfolding l1 by (simp add: contains_sublist [symmetric])
  have h2: "sublist ''whole'' (lower ''Tell me the whole story'')"
    "\<not> sublist ''when'' (lower ''Tell me the whole story'')"
    "\<not> sublist ''year'' (lower ''Tell me the whole story'')"
    "\<not> sublist ''timeline'' (lower ''Tell me the whole story'')"
    unfolding l2 by (simp_all add: contains_sublist [symmetric])
  have h3: "sublist ''nowhere'' (lower ''A road to nowhere'')"
    "\<not> sublist ''when'' (lower ''A road to nowhere'')"
    "\<not> sublist ''year'' (lower ''A road to nowhere'')"
    "\<not> sublist ''timeline'' (lower ''A road to nowhere'')"
    "\<not> sublist ''who'' (lower ''A road to nowhere'')"
    "\<not> sublist ''person'' (lower ''A road to nowhere'')"
    unfolding l3 by (simp_all add: contains_sublist [symmetric])
  have "classify_intent ''Whenever you want'' = ''timeline''"
    using classify_intent_substring [of "''when''" "''Whenever you want''"] h1 by blast
  moreover have "classify_intent ''Tell me the whole story'' = ''person''"
    using classify_intent_substring [of "''when''" "''Tell me the whole story''"] h2 by blast
  moreover have "classify_intent ''A road to nowhere'' = ''location''"
    using classify_intent_substring [of "''when''" "''A road to nowhere''"] h3 by blast
  ultimately show ?thesis by blast
qed


section \<open>Entity extraction without the model\<close>

text \<open>
  Claim C10. When the \<open>nlp\<close> field is \<open>None\<close>, \<open>extract_query_entities\<close> returns the
  empty set for every query; and the field is \<open>None\<close> in every bot constructed when
  loading the spaCy model raised.
\<close>

theorem extract_query_entities_no_nlp:
  "(nlp b = None \<longrightarrow> extract_query_entities b q = {})
   \<and> (CyberpunkBot_init env = Inr b \<and> spacy_load env = Inl e
        \<longrightarrow> nlp b = None \<and> extract_query_entities b q = {})"
  by (auto simp: extract_query_entities_def CyberpunkBot_init_def Let_def split: sum.splits)

theorem extract_query_entities_no_nlp_witness:
  "CyberpunkBot_init no_spacy_env = Inr (sample_bot \<lparr> nlp := None \<rparr>)
   \<and> extract_query_entities (sample_bot \<lparr> nlp := None \<rparr>) ''Who is Johnny Silverhand?'' = {}"
proof -
  have a: "CyberpunkBot_init no_spacy_env = Inr (sample_bot \<lparr> nlp := None \<rparr>)"
    by (auto simp: no_spacy_env_def CyberpunkBot_init_def sample_env_def sample_bot_def load_corpus_def
      init_llm_def init_chain_def lower_def lower_char_def fun_eq_iff)
  have b: "spacy_load no_spacy_env = Inl OSError"
    by (simp add: no_spacy_env_def)
  from extract_query_entities_no_nlp [of "sample_bot \<lparr> nlp := None \<rparr>"
      "''Who is Johnny Silverhand?''" no_spacy_env OSError] a b
  show ?thesis by blast
qed

end
